theory Spec2Isabelle
  imports Main "HOL-Library.AList" "HOL-Library.Char_ord" "HOL-Library.List_Lexorder"
    "HOL-Library.Multiset"
begin

datatype pyval =
    VNone
  | VBool bool
  | VInt int
  | VStr string
  | VDatetime int
  | VList "pyval list"
  | VTuple "pyval list"
  | VDict "(string \<times> pyval) list"
  | VSet "pyval list"
  | VImmMap "(string \<times> pyval) list"
  | VObj string string "(string \<times> pyval) list" "(string \<times> pyval) list"
      "(string \<times> pyval) list option"

datatype error =
    KeyError pyval
  | IndexError
  | AttributeError string
  | TypeError
  | ValueError
  | ModuleNotFoundError string
  | RecursionError
  | NoCodecError
  | OtherError string

definition dict_getitem :: "(string \<times> 'v) list \<Rightarrow> string \<Rightarrow> error + 'v" where
  "dict_getitem d k = (case map_of d k of None \<Rightarrow> Inl (KeyError (VStr k)) | Some v \<Rightarrow> Inr v)"

definition dict_setitem :: "(string \<times> 'v) list \<Rightarrow> string \<Rightarrow> 'v \<Rightarrow> (string \<times> 'v) list" where
  "dict_setitem d k v = AList.update k v d"

definition dict_contains :: "(string \<times> 'v) list \<Rightarrow> string \<Rightarrow> bool" where
  "dict_contains d k = (map_of d k \<noteq> None)"

definition startswith :: "string \<Rightarrow> string \<Rightarrow> bool" where
  "startswith s p = (take (length p) s = p)"

record codec =
  handles :: "pyval \<Rightarrow> bool"
  serialise :: "pyval \<Rightarrow> error + pyval"
  deserialise :: "pyval \<Rightarrow> error + pyval"

record fqn_resolver =
  public_to_private :: "(string \<times> string) list"
  private_to_public :: "(string \<times> string) list"

record pyclass =
  class_attrs :: "(string \<times> pyval) list"
  construct :: "(string \<times> pyval) list \<Rightarrow> error + pyval"

record marshall =
  resolver :: fqn_resolver
  codecs :: "(string \<times> codec) list"
  py_modules :: "(string \<times> (string \<times> pyclass) list) list"

definition is_handled_by_codec :: "marshall \<Rightarrow> pyval \<Rightarrow> bool" where
  "is_handled_by_codec m data = list_ex (\<lambda>c. handles c data) (map snd (codecs m))"

definition object_to_codec_dict :: "marshall \<Rightarrow> pyval \<Rightarrow> error + pyval" where
  "object_to_codec_dict m obj =
     (case find (\<lambda>c. handles c obj) (map snd (codecs m)) of
        Some c \<Rightarrow> serialise c obj
      | None \<Rightarrow> Inr VNone)"

fun is_sequence :: "pyval \<Rightarrow> bool" where
  "is_sequence (VList xs) = True"
| "is_sequence (VTuple xs) = True"
| "is_sequence _ = False"

fun is_mapping :: "pyval \<Rightarrow> bool" where
  "is_mapping (VDict kvs) = True"
| "is_mapping (VSet xs) = True"
| "is_mapping (VImmMap kvs) = True"
| "is_mapping _ = False"

fun seq_items :: "pyval \<Rightarrow> pyval list" where
  "seq_items (VList xs) = xs"
| "seq_items (VTuple xs) = xs"
| "seq_items _ = []"

fun mapping_items :: "pyval \<Rightarrow> error + (string \<times> pyval) list" where
  "mapping_items (VDict kvs) = Inr kvs"
| "mapping_items (VImmMap kvs) = Inr kvs"
| "mapping_items _ = Inl (AttributeError ''items'')"

fun type_module :: "pyval \<Rightarrow> string" where
  "type_module (VDatetime t) = ''datetime''"
| "type_module (VImmMap kvs) = ''immutables._map''"
| "type_module (VObj mo cn ca vs jd) = mo"
| "type_module _ = ''builtins''"

fun type_name :: "pyval \<Rightarrow> string" where
  "type_name VNone = ''NoneType''"
| "type_name (VBool b) = ''bool''"
| "type_name (VInt i) = ''int''"
| "type_name (VStr s) = ''str''"
| "type_name (VDatetime t) = ''datetime''"
| "type_name (VList xs) = ''list''"
| "type_name (VTuple xs) = ''tuple''"
| "type_name (VDict kvs) = ''dict''"
| "type_name (VSet xs) = ''set''"
| "type_name (VImmMap kvs) = ''Map''"
| "type_name (VObj mo cn ca vs jd) = cn"

fun is_datetime :: "pyval \<Rightarrow> bool" where
  "is_datetime (VDatetime t) = True"
| "is_datetime _ = False"

definition is_simple_type :: "pyval \<Rightarrow> bool" where
  "is_simple_type data = (if type_module data = ''builtins'' then True else is_datetime data)"

fun py_getattr :: "pyval \<Rightarrow> string \<Rightarrow> pyval option" where
  "py_getattr (VObj mo cn ca vs jd) a =
     (case map_of vs a of Some v \<Rightarrow> Some v | None \<Rightarrow> map_of ca a)"
| "py_getattr _ a = None"

fun py_vars :: "pyval \<Rightarrow> error + (string \<times> pyval) list" where
  "py_vars (VObj mo cn ca vs jd) = Inr vs"
| "py_vars _ = Inl TypeError"

fun get_json_data :: "pyval \<Rightarrow> (string \<times> pyval) list option" where
  "get_json_data (VObj mo cn ca vs jd) = jd"
| "get_json_data _ = None"


fun str_split :: "char \<Rightarrow> string \<Rightarrow> string list" where
  "str_split c [] = [[]]"
| "str_split c (x # xs) =
     (if x = c then [] # str_split c xs
      else (case str_split c xs of [] \<Rightarrow> [[x]] | p # ps \<Rightarrow> (x # p) # ps))"

fun str_join :: "string \<Rightarrow> string list \<Rightarrow> string" where
  "str_join sep [] = []"
| "str_join sep [p] = p"
| "str_join sep (p # q # ps) = p @ sep @ str_join sep (q # ps)"

definition FqnResolver_init :: "(string \<times> string) list \<Rightarrow> fqn_resolver" where
  "FqnResolver_init fqn_map =
     \<lparr>public_to_private = fqn_map,
      private_to_public = fold (\<lambda>(a, b) d. dict_setitem d b a) fqn_map []\<rparr>"

definition lookup_fqn :: "fqn_resolver \<Rightarrow> string \<Rightarrow> bool \<Rightarrow> error + string" where
  "lookup_fqn r key public =
     (if public then dict_getitem (public_to_private r) key
      else dict_getitem (private_to_public r) key)"

definition get_fqn :: "fqn_resolver \<Rightarrow> string \<Rightarrow> bool \<Rightarrow> error + string" where
  "get_fqn r key public =
     (case lookup_fqn r key public of
        Inr p \<Rightarrow> Inr p
      | Inl e \<Rightarrow>
          (if key = [] then Inl IndexError
           else if last key \<noteq> CHR ''*'' \<and> CHR ''.'' \<in> set key then
             (let parts = str_split (CHR ''.'') key;
                  entity = last parts;
                  parts' = butlast parts;
                  star_key = str_join ''.'' (parts' @ [''*''])
              in (case lookup_fqn r star_key public of
                    Inl e' \<Rightarrow> Inl e'
                  | Inr path \<Rightarrow> Inr (butlast path @ entity)))
           else Inl e))"

definition instance_to_fqn :: "fqn_resolver \<Rightarrow> pyval \<Rightarrow> error + string" where
  "instance_to_fqn r instance =
     (let path = type_module instance @ ''.'' @ type_name instance
      in get_fqn r path False)"

text \<open>Size bounds for the termination proofs below.\<close>

lemma size_map_of:
  "map_of kvs a = Some v \<Longrightarrow> size (v::pyval) < size_list (size_prod (\<lambda>_. 0) size) kvs"
  by (induction kvs) (auto split: if_splits)

lemma size_py_getattr: "py_getattr obj a = Some v \<Longrightarrow> size v < size obj"
  by (cases obj) (auto split: option.splits dest: size_map_of)

lemma size_seq_items: "is_sequence data \<Longrightarrow> size_list size (seq_items data) < size data"
  by (cases data) auto

lemma size_mapping_items:
  "mapping_items data = Inr items \<Longrightarrow> size_list (size_prod (\<lambda>_. 0) size) items < size data"
  by (cases data) auto

lemma size_py_vars:
  "py_vars obj = Inr items \<Longrightarrow> size_list (size_prod (\<lambda>_. 0) size) items < size obj"
  by (cases obj) auto

lemma size_get_json_data:
  "get_json_data obj = Some items \<Longrightarrow> size_list (size_prod (\<lambda>_. 0) size) items < size obj"
  by (cases obj) auto

function serialise_data :: "marshall \<Rightarrow> pyval \<Rightarrow> error + pyval"
  and object_to_dict :: "marshall \<Rightarrow> pyval \<Rightarrow> error + pyval"
  and serialise_seq :: "marshall \<Rightarrow> pyval list \<Rightarrow> pyval list \<Rightarrow> error + pyval list"
  and serialise_items ::
    "marshall \<Rightarrow> (string \<times> pyval) list \<Rightarrow> (string \<times> pyval) list \<Rightarrow> error + (string \<times> pyval) list"
  and export_fields ::
    "marshall \<Rightarrow> (string \<times> pyval) list \<Rightarrow> (string \<times> pyval) list \<Rightarrow> error + (string \<times> pyval) list"
where
  "serialise_data m data =
     (if is_handled_by_codec m data then object_to_codec_dict m data
      else if is_sequence data then
        (case serialise_seq m (seq_items data) [] of
           Inl e \<Rightarrow> Inl e
         | Inr new_sequence \<Rightarrow> Inr (VList new_sequence))
      else if is_mapping data then
        (case mapping_items data of
           Inl e \<Rightarrow> Inl e
         | Inr items \<Rightarrow>
             (case serialise_items m items [] of
                Inl e \<Rightarrow> Inl e
              | Inr new_mapping \<Rightarrow> Inr (VDict new_mapping)))
      else if is_simple_type data then Inr data
      else object_to_dict m data)"
| "object_to_dict m obj =
     (case instance_to_fqn (resolver m) obj of
        Inl e \<Rightarrow> Inl e
      | Inr fqn \<Rightarrow>
          (let data0 = [(''__fqn__'', VStr fqn)];
               data1 = (case py_getattr obj ''__version__'' of
                          Some v \<Rightarrow> dict_setitem data0 ''__version__'' v
                        | None \<Rightarrow> data0);
               data2 = (case py_getattr obj ''__msgid__'' of
                          Some v \<Rightarrow> dict_setitem data1 ''__msgid__'' v
                        | None \<Rightarrow> data1)
           in (case (case py_getattr obj ''__timestamp__'' of
                       Some t \<Rightarrow>
                         (case serialise_data m t of
                            Inl e \<Rightarrow> Inl e
                          | Inr t' \<Rightarrow> Inr (dict_setitem data2 ''__timestamp__'' t'))
                     | None \<Rightarrow> Inr data2) of
                 Inl e \<Rightarrow> Inl e
               | Inr data3 \<Rightarrow>
                   (case (case get_json_data obj of
                            Some jd \<Rightarrow> Inr jd
                          | None \<Rightarrow> py_vars obj) of
                      Inl e \<Rightarrow> Inl e
                    | Inr json_data \<Rightarrow>
                        (case export_fields m json_data data3 of
                           Inl e \<Rightarrow> Inl e
                         | Inr data4 \<Rightarrow> Inr (VDict data4))))))"
| "serialise_seq m [] new_sequence = Inr new_sequence"
| "serialise_seq m (item # rest) new_sequence =
     (case serialise_data m item of
        Inl e \<Rightarrow> Inl e
      | Inr s \<Rightarrow> serialise_seq m rest (new_sequence @ [s]))"
| "serialise_items m [] new_mapping = Inr new_mapping"
| "serialise_items m ((key, value) # rest) new_mapping =
     (case serialise_data m value of
        Inl e \<Rightarrow> Inl e
      | Inr s \<Rightarrow> serialise_items m rest (dict_setitem new_mapping key s))"
| "export_fields m [] data = Inr data"
| "export_fields m ((attr, value) # rest) data =
     (if \<not> startswith attr ''__'' then
        (case serialise_data m value of
           Inl e \<Rightarrow> Inl e
         | Inr s \<Rightarrow> export_fields m rest (dict_setitem data attr s))
      else export_fields m rest data)"
  by pat_completeness auto

termination
  apply (relation "measure (\<lambda>x. case x of
      Inl (Inl (m, v)) \<Rightarrow> 2 * size v + 1
    | Inl (Inr (m, v)) \<Rightarrow> 2 * size v
    | Inr (Inl (m, xs, acc)) \<Rightarrow> 2 * size_list size xs
    | Inr (Inr (Inl (m, kvs, acc))) \<Rightarrow> 2 * size_list (size_prod (\<lambda>_. 0) size) kvs
    | Inr (Inr (Inr (m, kvs, acc))) \<Rightarrow> 2 * size_list (size_prod (\<lambda>_. 0) size) kvs)")
  apply (auto dest: size_py_getattr size_seq_items size_mapping_items size_py_vars
      size_get_json_data split: option.splits)
  done


fun py_truthy :: "pyval \<Rightarrow> bool" where
  "py_truthy VNone = False"
| "py_truthy (VBool b) = b"
| "py_truthy (VInt i) = (i \<noteq> 0)"
| "py_truthy (VStr s) = (s \<noteq> [])"
| "py_truthy (VDatetime t) = True"
| "py_truthy (VList xs) = (xs \<noteq> [])"
| "py_truthy (VTuple xs) = (xs \<noteq> [])"
| "py_truthy (VDict kvs) = (kvs \<noteq> [])"
| "py_truthy (VSet xs) = (xs \<noteq> [])"
| "py_truthy (VImmMap kvs) = (kvs \<noteq> [])"
| "py_truthy (VObj mo cn ca vs jd) = True"

fun hashable :: "pyval \<Rightarrow> bool" where
  "hashable (VList xs) = False"
| "hashable (VDict kvs) = False"
| "hashable (VSet xs) = False"
| "hashable (VTuple xs) = (\<forall>x \<in> set xs. hashable x)"
| "hashable (VImmMap kvs) = (\<forall>x \<in> set (map snd kvs). hashable x)"
| "hashable _ = True"

fun is_dict :: "pyval \<Rightarrow> bool" where
  "is_dict (VDict kvs) = True"
| "is_dict _ = False"

fun py_contains :: "pyval \<Rightarrow> string \<Rightarrow> bool" where
  "py_contains (VDict kvs) k = dict_contains kvs k"
| "py_contains _ k = False"

fun py_subscript :: "pyval \<Rightarrow> string \<Rightarrow> error + pyval" where
  "py_subscript (VDict kvs) k = dict_getitem kvs k"
| "py_subscript _ k = Inl TypeError"

fun py_get :: "pyval \<Rightarrow> string \<Rightarrow> pyval" where
  "py_get (VDict kvs) k = (case map_of kvs k of Some v \<Rightarrow> v | None \<Rightarrow> VNone)"
| "py_get _ k = VNone"

definition is_enum_dict :: "pyval \<Rightarrow> bool" where
  "is_enum_dict data = (is_dict data \<and> py_contains data ''_value_'' \<and> py_contains data ''_name_'')"

definition is_serialised_class :: "pyval \<Rightarrow> bool" where
  "is_serialised_class data = (is_dict data \<and> py_contains data ''__fqn__'')"

definition requires_codec :: "pyval \<Rightarrow> bool" where
  "requires_codec data = (is_dict data \<and> py_contains data ''__codec__'')"

definition import_module ::
  "(string \<times> (string \<times> pyclass) list) list \<Rightarrow> string \<Rightarrow> error + (string \<times> pyclass) list" where
  "import_module mods name =
     (if name = [] then Inl ValueError
      else if hd name = CHR ''.'' then Inl TypeError
      else (case map_of mods name of
              None \<Rightarrow> Inl (ModuleNotFoundError name)
            | Some mo \<Rightarrow> Inr mo))"

definition fqn_to_type ::
  "fqn_resolver \<Rightarrow> (string \<times> (string \<times> pyclass) list) list \<Rightarrow> pyval \<Rightarrow> error + pyclass" where
  "fqn_to_type r mods fqn =
     (case fqn of
        VStr key \<Rightarrow>
          (case get_fqn r key True of
             Inl e \<Rightarrow> Inl e
           | Inr module_path \<Rightarrow>
               (if CHR ''.'' \<notin> set module_path then Inl ValueError
                else
                  (let parts = str_split (CHR ''.'') module_path;
                       module_name = str_join ''.'' (butlast parts);
                       class_name = last parts
                   in (case import_module mods module_name of
                         Inl e \<Rightarrow> Inl e
                       | Inr mo \<Rightarrow>
                           (case map_of mo class_name of
                              None \<Rightarrow> Inl (AttributeError class_name)
                            | Some c \<Rightarrow> Inr c)))))
      | _ \<Rightarrow> Inl TypeError)"

definition class_getattr :: "pyclass \<Rightarrow> pyval \<Rightarrow> error + pyval" where
  "class_getattr c name =
     (case name of
        VStr a \<Rightarrow> (case map_of (class_attrs c) a of
                     None \<Rightarrow> Inl (AttributeError a)
                   | Some v \<Rightarrow> Inr v)
      | _ \<Rightarrow> Inl TypeError)"

definition dict_to_enum :: "marshall \<Rightarrow> pyval \<Rightarrow> error + pyval" where
  "dict_to_enum m data =
     (case py_subscript data ''__fqn__'' of
        Inl e \<Rightarrow> Inl e
      | Inr fqn \<Rightarrow>
          (case fqn_to_type (resolver m) (py_modules m) fqn of
             Inl e \<Rightarrow> Inl e
           | Inr cls \<Rightarrow>
               (case py_subscript data ''_name_'' of
                  Inl e \<Rightarrow> Inl e
                | Inr name \<Rightarrow> class_getattr cls name)))"

definition codecs_getitem :: "(string \<times> codec) list \<Rightarrow> pyval \<Rightarrow> error + codec" where
  "codecs_getitem cs fcn =
     (if \<not> hashable fcn then Inl TypeError
      else (case fcn of
              VStr name \<Rightarrow> (case map_of cs name of
                              None \<Rightarrow> Inl (KeyError fcn)
                            | Some c \<Rightarrow> Inr c)
            | _ \<Rightarrow> Inl (KeyError fcn)))"

definition codec_dict_to_object :: "marshall \<Rightarrow> pyval \<Rightarrow> error + pyval" where
  "codec_dict_to_object m data =
     (case py_subscript data ''__codec__'' of
        Inl e \<Rightarrow> Inl e
      | Inr fcn \<Rightarrow>
          (case codecs_getitem (codecs m) fcn of
             Inl e \<Rightarrow> Inl e
           | Inr c \<Rightarrow>
               (case py_subscript data ''params'' of
                  Inl e \<Rightarrow> Inl e
                | Inr params \<Rightarrow> deserialise c params)))"

lemma size_py_get: "py_truthy (py_get data k) \<Longrightarrow> size (py_get data k) < size data"
  by (cases data) (auto split: option.splits dest: size_map_of)

function deserialise_data :: "marshall \<Rightarrow> pyval \<Rightarrow> error + pyval"
  and dict_to_object :: "marshall \<Rightarrow> pyval \<Rightarrow> error + pyval"
  and deserialise_seq :: "marshall \<Rightarrow> pyval list \<Rightarrow> pyval list \<Rightarrow> error + pyval list"
  and deserialise_items ::
    "marshall \<Rightarrow> (string \<times> pyval) list \<Rightarrow> (string \<times> pyval) list \<Rightarrow> error + (string \<times> pyval) list"
  and import_fields ::
    "marshall \<Rightarrow> (string \<times> pyval) list \<Rightarrow> (string \<times> pyval) list \<Rightarrow> error + (string \<times> pyval) list"
where
  "deserialise_data m data =
     (if is_enum_dict data then dict_to_enum m data
      else if is_serialised_class data then dict_to_object m data
      else if requires_codec data then codec_dict_to_object m data
      else if is_sequence data then
        (case deserialise_seq m (seq_items data) [] of
           Inl e \<Rightarrow> Inl e
         | Inr new_sequence \<Rightarrow> Inr (VList new_sequence))
      else if is_mapping data then
        (case mapping_items data of
           Inl e \<Rightarrow> Inl e
         | Inr items \<Rightarrow>
             (case deserialise_items m items [] of
                Inl e \<Rightarrow> Inl e
              | Inr new_mapping \<Rightarrow> Inr (VImmMap new_mapping)))
      else Inr data)"
| "dict_to_object m data =
     (let kwargs0 = [];
          kwargs1 = (if py_truthy (py_get data ''__msgid__'')
                     then dict_setitem kwargs0 ''__msgid__'' (py_get data ''__msgid__'')
                     else kwargs0)
      in (case (if py_truthy (py_get data ''__timestamp__'')
                then (case deserialise_data m (py_get data ''__timestamp__'') of
                        Inl e \<Rightarrow> Inl e
                      | Inr t \<Rightarrow> Inr (dict_setitem kwargs1 ''__timestamp__'' t))
                else Inr kwargs1) of
            Inl e \<Rightarrow> Inl e
          | Inr kwargs2 \<Rightarrow>
              (case mapping_items data of
                 Inl e \<Rightarrow> Inl e
               | Inr items \<Rightarrow>
                   (case import_fields m items kwargs2 of
                      Inl e \<Rightarrow> Inl e
                    | Inr kwargs \<Rightarrow>
                        (case py_subscript data ''__fqn__'' of
                           Inl e \<Rightarrow> Inl e
                         | Inr fqn \<Rightarrow>
                             (case fqn_to_type (resolver m) (py_modules m) fqn of
                                Inl e \<Rightarrow> Inl e
                              | Inr cls \<Rightarrow> construct cls kwargs))))))"
| "deserialise_seq m [] new_sequence = Inr new_sequence"
| "deserialise_seq m (item # rest) new_sequence =
     (case deserialise_data m item of
        Inl e \<Rightarrow> Inl e
      | Inr s \<Rightarrow> deserialise_seq m rest (new_sequence @ [s]))"
| "deserialise_items m [] new_mapping = Inr new_mapping"
| "deserialise_items m ((key, value) # rest) new_mapping =
     (case deserialise_data m value of
        Inl e \<Rightarrow> Inl e
      | Inr s \<Rightarrow> deserialise_items m rest (dict_setitem new_mapping key s))"
| "import_fields m [] kwargs = Inr kwargs"
| "import_fields m ((key, value) # rest) kwargs =
     (if \<not> startswith key ''__'' then
        (case deserialise_data m value of
           Inl e \<Rightarrow> Inl e
         | Inr s \<Rightarrow> import_fields m rest (dict_setitem kwargs key s))
      else import_fields m rest kwargs)"
  by pat_completeness auto

termination
  apply (relation "measure (\<lambda>x. case x of
      Inl (Inl (m, v)) \<Rightarrow> 2 * size v + 1
    | Inl (Inr (m, v)) \<Rightarrow> 2 * size v
    | Inr (Inl (m, xs, acc)) \<Rightarrow> 2 * size_list size xs
    | Inr (Inr (Inl (m, kvs, acc))) \<Rightarrow> 2 * size_list (size_prod (\<lambda>_. 0) size) kvs
    | Inr (Inr (Inr (m, kvs, acc))) \<Rightarrow> 2 * size_list (size_prod (\<lambda>_. 0) size) kvs)")
  apply (auto dest: size_py_get size_seq_items size_mapping_items)
  done


datatype json =
    JNull
  | JBool bool
  | JInt int
  | JStr string
  | JArr "json list"
  | JObj "(string \<times> json) list"

lemma size_list_sort_key [simp]: "size_list f (sort_key g xs) = size_list f xs"
proof -
  have "sum_list (map f (sort_key g xs)) = sum_list (map f xs)"
    by (metis mset_map mset_sort sum_mset_sum_list)
  then show ?thesis by (simp add: size_list_conv_sum_list)
qed


fun json_loads :: "json \<Rightarrow> pyval"
  and json_loads_list :: "json list \<Rightarrow> pyval list"
  and json_loads_items :: "(string \<times> json) list \<Rightarrow> (string \<times> pyval) list \<Rightarrow> (string \<times> pyval) list"
where
  "json_loads JNull = VNone"
| "json_loads (JBool b) = VBool b"
| "json_loads (JInt i) = VInt i"
| "json_loads (JStr s) = VStr s"
| "json_loads (JArr js) = VList (json_loads_list js)"
| "json_loads (JObj kvs) = VDict (json_loads_items kvs [])"
| "json_loads_list [] = []"
| "json_loads_list (j # js) = json_loads j # json_loads_list js"
| "json_loads_items [] d = d"
| "json_loads_items ((k, j) # kvs) d = json_loads_items kvs (dict_setitem d k (json_loads j))"



definition mk_marshall :: "(string \<times> string) list \<Rightarrow> marshall" where
  "mk_marshall fqn_map = \<lparr>resolver = FqnResolver_init fqn_map, codecs = [], py_modules = []\<rparr>"

text \<open>
  The codec registry is the dictionary \<^verbatim>\<open>self._codecs\<close>: registration appends a new
  name at the end, so the order of the list is registration order. \<^verbatim>\<open>del\<close> raises
  \<open>KeyError\<close> on a name that is not registered.
\<close>

definition register_codec :: "marshall \<Rightarrow> string \<Rightarrow> codec \<Rightarrow> marshall" where
  "register_codec m fcn c = m\<lparr>codecs := dict_setitem (codecs m) fcn c\<rparr>"

definition deregister_codec :: "marshall \<Rightarrow> string \<Rightarrow> error + marshall" where
  "deregister_codec m fcn =
     (case map_of (codecs m) fcn of
        None \<Rightarrow> Inl (KeyError (VStr fcn))
      | Some c \<Rightarrow> Inr (m\<lparr>codecs := AList.delete fcn (codecs m)\<rparr>))"

definition has_codec :: "marshall \<Rightarrow> string \<Rightarrow> bool" where
  "has_codec m fcn = dict_contains (codecs m) fcn"

declare serialise_data.simps [simp del] object_to_dict.simps [simp del]
declare deserialise_data.simps [simp del] dict_to_object.simps [simp del]


section \<open>Classification of decoded nodes\<close>

text \<open>
  The kind of a decoded node is decided by the tests of \<^verbatim>\<open>deserialise_data\<close>, in its
  order. \<open>reserved_keys\<close> are the key literals the engine reads or writes itself;
  \<open>marked_keys\<close> are those among them that start with two underscores, the test
  \<^verbatim>\<open>_object_to_dict\<close> and \<^verbatim>\<open>_dict_to_object\<close> use to tell a field from a reserved key.
\<close>

datatype node_kind = EnumEnvelope | ObjectEnvelope | CodecEnvelope | PlainMapping

definition classify :: "pyval \<Rightarrow> node_kind" where
  "classify data =
     (if is_enum_dict data then EnumEnvelope
      else if is_serialised_class data then ObjectEnvelope
      else if requires_codec data then CodecEnvelope
      else PlainMapping)"

definition reserved_keys :: "string list" where
  "reserved_keys = [''__fqn__'', ''__version__'', ''__msgid__'', ''__timestamp__'',
     ''__codec__'', ''params'', ''_name_'', ''_value_'']"

definition marked_keys :: "string list" where
  "marked_keys = [''__fqn__'', ''__version__'', ''__msgid__'', ''__timestamp__'', ''__codec__'']"


section \<open>Encoding an object graph held by reference\<close>






section \<open>Example codecs and marshaller\<close>

definition datetime_codec :: codec where
  "datetime_codec =
     \<lparr>handles = is_datetime,
      serialise = (\<lambda>v. case v of
          VDatetime t \<Rightarrow> Inr (VDict [(''__codec__'', VStr ''codecs.Datetime''), (''params'', VInt t)])
        | _ \<Rightarrow> Inl (OtherError ''not a datetime'')),
      deserialise = (\<lambda>p. case p of
          VInt t \<Rightarrow> Inr (VDatetime t)
        | _ \<Rightarrow> Inl (OtherError ''bad params''))\<rparr>"

definition money_codec :: codec where
  "money_codec =
     \<lparr>handles = (\<lambda>v. type_module v = ''app'' \<and> type_name v = ''Money''),
      serialise = (\<lambda>v. Inr (VDict [(''__codec__'', VStr ''codecs.Money''),
          (''params'', (case py_getattr v ''amount'' of Some a \<Rightarrow> a | None \<Rightarrow> VNone))])),
      deserialise = (\<lambda>p. Inr (VObj ''app'' ''Money'' [] [(''amount'', p)] None))\<rparr>"

definition example_marshall :: marshall where
  "example_marshall =
     register_codec
       (register_codec
          \<lparr>resolver = FqnResolver_init [(''a.b.*'', ''app.*'')], codecs = [], py_modules = []\<rparr>
          ''codecs.Datetime'' datetime_codec)
       ''codecs.Money'' money_codec"


section \<open>Splitting a dotted path\<close>

lemma str_split_not_Nil: "str_split c s \<noteq> []"
  by (induction s) (auto split: list.splits)

lemma str_split_no_sep: "c \<notin> set s \<Longrightarrow> str_split c s = [s]"
  by (induction s) auto

lemma str_split_append_sep:
  "str_split c (pre @ c # ent) = str_split c pre @ str_split c ent"
proof (induction pre)
  case Nil
  show ?case by simp
next
  case (Cons x pre)
  obtain p ps where sp: "str_split c pre = p # ps"
    using str_split_not_Nil [of c pre] by (cases "str_split c pre") auto
  obtain q qs where sq: "str_split c (pre @ c # ent) = q # qs"
    using str_split_not_Nil [of c "pre @ c # ent"] by (cases "str_split c (pre @ c # ent)") auto
  from Cons sp sq show ?case by auto
qed

lemma str_join_snoc:
  "ps \<noteq> [] \<Longrightarrow> str_join sep (ps @ [q]) = str_join sep ps @ sep @ q"
  by (induction sep ps rule: str_join.induct) auto

lemma str_join_split: "str_join [c] (str_split c s) = s"
proof (induction s)
  case Nil
  show ?case by simp
next
  case (Cons x s)
  obtain p ps where sp: "str_split c s = p # ps"
    using str_split_not_Nil [of c s] by (cases "str_split c s") auto
  show ?case
  proof (cases "x = c")
    case True
    with Cons sp show ?thesis by simp
  next
    case False
    with Cons sp show ?thesis by (cases ps) auto
  qed
qed

lemma split_last_segment:
  assumes "c \<notin> set ent"
  shows "last (str_split c (pre @ c # ent)) = ent"
    and "butlast (str_split c (pre @ c # ent)) = str_split c pre"
  using assms str_split_not_Nil [of c pre]
  by (simp_all add: str_split_append_sep str_split_no_sep butlast_append)

lemma star_key_of_path:
  assumes "CHR ''.'' \<notin> set ent"
  shows "str_join ''.'' (butlast (str_split (CHR ''.'') (pre @ CHR ''.'' # ent)) @ [''*''])
         = pre @ ''.*''"
  using assms str_split_not_Nil [of "CHR ''.''" pre]
  by (simp add: split_last_segment str_join_snoc str_join_split)

lemma path_decompose:
  assumes "c \<in> set key"
  shows "\<exists>pre ent. key = pre @ c # ent \<and> c \<notin> set ent"
  using assms by (metis split_list_last)

lemma get_fqn_exact: "lookup_fqn r key public = Inr p \<Longrightarrow> get_fqn r key public = Inr p"
  by (simp add: get_fqn_def)

lemma lookup_fqn_cases:
  "(\<exists>p. lookup_fqn r key public = Inr p) \<or> lookup_fqn r key public = Inl (KeyError (VStr key))"
  by (auto simp: lookup_fqn_def dict_getitem_def split: option.splits)

lemma get_fqn_wildcard:
  assumes miss: "lookup_fqn r (pre @ CHR ''.'' # ent) public = Inl e"
    and ent: "CHR ''.'' \<notin> set ent" "ent = [] \<or> last ent \<noteq> CHR ''*''"
  shows "get_fqn r (pre @ CHR ''.'' # ent) public =
     (case lookup_fqn r (pre @ ''.*'') public of
        Inl e' \<Rightarrow> Inl e' | Inr path \<Rightarrow> Inr (butlast path @ ent))"
proof -
  let ?key = "pre @ CHR ''.'' # ent"
  have l: "last ?key \<noteq> CHR ''*''" "?key \<noteq> []" "CHR ''.'' \<in> set ?key"
    using ent by auto
  have sk: "str_join ''.'' (butlast (str_split (CHR ''.'') ?key) @ [''*'']) = pre @ ''.*''"
    using ent(1) by (rule star_key_of_path)
  have en: "last (str_split (CHR ''.'') ?key) = ent"
    using ent(1) by (rule split_last_segment)
  show ?thesis
    unfolding get_fqn_def Let_def sk en using miss l by simp
qed

lemma get_fqn_no_wildcard:
  assumes miss: "lookup_fqn r key public = Inl e"
    and no: "key = [] \<or> last key = CHR ''*'' \<or> CHR ''.'' \<notin> set key"
  shows "get_fqn r key public = (if key = [] then Inl IndexError else Inl e)"
  using assms by (auto simp: get_fqn_def)


lemma get_fqn_Inr_origin:
  assumes "get_fqn r key public = Inr q"
  shows "lookup_fqn r key public = Inr q \<or>
     ((\<forall>p. lookup_fqn r key public \<noteq> Inr p) \<and>
      (\<exists>pre ent path. key = pre @ CHR ''.'' # ent \<and> CHR ''.'' \<notin> set ent \<and>
         lookup_fqn r (pre @ ''.*'') public = Inr path \<and> q = butlast path @ ent))"
proof (cases "lookup_fqn r key public")
  case (Inr p)
  with assms show ?thesis by (simp add: get_fqn_def)
next
  case (Inl e)
  show ?thesis
  proof (cases "key = [] \<or> last key = CHR ''*'' \<or> CHR ''.'' \<notin> set key")
    case True
    from get_fqn_no_wildcard [OF Inl True] assms show ?thesis
      by (simp split: if_splits)
  next
    case False
    then obtain pre ent where k: "key = pre @ CHR ''.'' # ent" "CHR ''.'' \<notin> set ent"
      using path_decompose [of "CHR ''.''" key] by auto
    from False k have e: "ent = [] \<or> last ent \<noteq> CHR ''*''" by auto
    from get_fqn_wildcard [OF Inl [unfolded k(1)] k(2) e] assms k Inl show ?thesis
      by (auto split: sum.splits)
  qed
qed


lemma prefix_of_last_segment:
  assumes "key = pre @ c # ent" "c \<notin> set ent"
  shows "pre = str_join [c] (butlast (str_split c key))"
  using assms by (simp add: split_last_segment str_join_split)

text \<open>
  Claim C3. \<^verbatim>\<open>_get_fqn\<close> tries the exact entry first and returns it whenever it exists.
  A result that is not the exact entry comes from the wildcard retry, which happens only
  when the exact entry is absent and the key contains a \<open>.\<close>: the final segment is
  replaced by \<open>*\<close>, and on success the original final segment is appended to the matched
  value without its last character. When neither the exact nor the wildcard entry exists,
  an error is raised. Both directions (\<open>public\<close> true or false) behave alike.
\<close>

theorem get_fqn_exact_then_wildcard:
  "(lookup_fqn r key public = Inr p \<longrightarrow> get_fqn r key public = Inr p) \<and>
   (get_fqn r key public = Inr q \<longrightarrow>
      lookup_fqn r key public = Inr q \<or>
      ((\<forall>p'. lookup_fqn r key public \<noteq> Inr p') \<and>
       (\<exists>pre' ent' path'. key = pre' @ CHR ''.'' # ent' \<and> CHR ''.'' \<notin> set ent' \<and>
          lookup_fqn r (pre' @ ''.*'') public = Inr path' \<and> q = butlast path' @ ent'))) \<and>
   (key = pre @ CHR ''.'' # ent \<and> CHR ''.'' \<notin> set ent \<and>
      (ent = [] \<or> last ent \<noteq> CHR ''*'') \<and>
      lookup_fqn r key public = Inl e \<and> lookup_fqn r (pre @ ''.*'') public = Inr path \<longrightarrow>
      get_fqn r key public = Inr (butlast path @ ent)) \<and>
   ((\<forall>p'. lookup_fqn r key public \<noteq> Inr p') \<and>
    (\<forall>pre' ent' p'. key = pre' @ CHR ''.'' # ent' \<and> CHR ''.'' \<notin> set ent' \<longrightarrow>
        lookup_fqn r (pre' @ ''.*'') public \<noteq> Inr p') \<longrightarrow>
    (\<exists>e'. get_fqn r key public = Inl e'))"
proof (intro conjI impI)
  assume "lookup_fqn r key public = Inr p"
  then show "get_fqn r key public = Inr p" by (rule get_fqn_exact)
next
  assume "get_fqn r key public = Inr q"
  then show "lookup_fqn r key public = Inr q \<or>
      ((\<forall>p'. lookup_fqn r key public \<noteq> Inr p') \<and>
       (\<exists>pre' ent' path'. key = pre' @ CHR ''.'' # ent' \<and> CHR ''.'' \<notin> set ent' \<and>
          lookup_fqn r (pre' @ ''.*'') public = Inr path' \<and> q = butlast path' @ ent'))"
    by (rule get_fqn_Inr_origin)
next
  assume a: "key = pre @ CHR ''.'' # ent \<and> CHR ''.'' \<notin> set ent \<and>
      (ent = [] \<or> last ent \<noteq> CHR ''*'') \<and>
      lookup_fqn r key public = Inl e \<and> lookup_fqn r (pre @ ''.*'') public = Inr path"
  from a have k: "key = pre @ CHR ''.'' # ent" by blast
  from a have m: "lookup_fqn r (pre @ CHR ''.'' # ent) public = Inl e"
    unfolding k by blast
  from a have d: "CHR ''.'' \<notin> set ent" and l: "ent = [] \<or> last ent \<noteq> CHR ''*''"
    and s: "lookup_fqn r (pre @ ''.*'') public = Inr path" by blast+
  show "get_fqn r key public = Inr (butlast path @ ent)"
    unfolding k get_fqn_wildcard [OF m d l] s by simp
next
  assume a: "(\<forall>p'. lookup_fqn r key public \<noteq> Inr p') \<and>
    (\<forall>pre' ent' p'. key = pre' @ CHR ''.'' # ent' \<and> CHR ''.'' \<notin> set ent' \<longrightarrow>
        lookup_fqn r (pre' @ ''.*'') public \<noteq> Inr p')"
  show "\<exists>e'. get_fqn r key public = Inl e'"
  proof (cases "get_fqn r key public")
    case (Inl e')
    then show ?thesis by blast
  next
    case (Inr q')
    from get_fqn_Inr_origin [OF Inr] a show ?thesis by blast
  qed
qed

theorem get_fqn_exact_then_wildcard_witness:
  "get_fqn (FqnResolver_init [(''a.b.*'', ''x.y.*'')]) ''a.b.Foo'' True = Inr ''x.y.Foo'' \<and>
   get_fqn (FqnResolver_init [(''a.b.*'', ''x.y.*'')]) ''x.y.Bar'' False = Inr ''a.b.Bar'' \<and>
   get_fqn (FqnResolver_init [(''a.b.C'', ''x.y.Special''), (''a.b.*'', ''x.y.*'')]) ''a.b.C'' True
     = Inr ''x.y.Special'' \<and>
   (\<exists>e. get_fqn (FqnResolver_init [(''a.b.*'', ''x.y.*'')]) ''c.d.Foo'' True = Inl e)"
proof -
  let ?r = "FqnResolver_init [(''a.b.*'', ''x.y.*'')]"
  let ?r2 = "FqnResolver_init [(''a.b.C'', ''x.y.Special''), (''a.b.*'', ''x.y.*'')]"
  have 1: "get_fqn ?r ''a.b.Foo'' True = Inr ''x.y.Foo''"
    using get_fqn_exact_then_wildcard [where r = ?r and key = "''a.b.Foo''" and public = True
        and pre = "''a.b''" and ent = "''Foo''" and path = "''x.y.*''"
        and e = "KeyError (VStr ''a.b.Foo'')"]
    by (simp add: FqnResolver_init_def lookup_fqn_def dict_getitem_def dict_setitem_def)
  have 2: "get_fqn ?r ''x.y.Bar'' False = Inr ''a.b.Bar''"
    using get_fqn_exact_then_wildcard [where r = ?r and key = "''x.y.Bar''" and public = False
        and pre = "''x.y''" and ent = "''Bar''" and path = "''a.b.*''"
        and e = "KeyError (VStr ''x.y.Bar'')"]
    by (simp add: FqnResolver_init_def lookup_fqn_def dict_getitem_def dict_setitem_def)
  have 3: "get_fqn ?r2 ''a.b.C'' True = Inr ''x.y.Special''"
    using get_fqn_exact_then_wildcard [where r = ?r2 and key = "''a.b.C''" and public = True
        and p = "''x.y.Special''"]
    by (simp add: FqnResolver_init_def lookup_fqn_def dict_getitem_def dict_setitem_def)
  have "\<And>pre' ent'. ''c.d.Foo'' = pre' @ CHR ''.'' # ent' \<Longrightarrow> CHR ''.'' \<notin> set ent'
      \<Longrightarrow> pre' = ''c.d''"
    by (drule (1) prefix_of_last_segment) simp
  then have 4: "\<exists>e. get_fqn ?r ''c.d.Foo'' True = Inl e"
    using get_fqn_exact_then_wildcard [where r = ?r and key = "''c.d.Foo''" and public = True]
    by (auto simp add: FqnResolver_init_def lookup_fqn_def dict_getitem_def dict_setitem_def)
  from 1 2 3 4 show ?thesis by blast
qed

section \<open>Codec dispatch\<close>

lemma serialise_data_handled:
  "is_handled_by_codec m v \<Longrightarrow> serialise_data m v = object_to_codec_dict m v"
  by (simp add: serialise_data.simps)

lemma is_handled_iff:
  "is_handled_by_codec m v \<longleftrightarrow> (\<exists>c \<in> set (map snd (codecs m)). handles c v)"
  by (simp add: is_handled_by_codec_def list_ex_iff)

lemma find_first_index:
  assumes "\<exists>x \<in> set xs. P x"
  shows "\<exists>i < length xs. find P xs = Some (xs ! i) \<and> P (xs ! i) \<and> (\<forall>j < i. \<not> P (xs ! j))"
proof -
  from assms obtain x where "find P xs = Some x"
    by (cases "find P xs") (auto simp: find_None_iff)
  then show ?thesis
    by (auto simp: find_Some_iff)
qed

text \<open>
  Claim C4. When some registered codec accepts a value, \<^verbatim>\<open>serialise_data\<close> returns the
  \<^verbatim>\<open>serialise\<close> output of the first codec, in registration order, whose \<^verbatim>\<open>handles\<close>
  accepts it. This holds for every value, also for an object that generic reflection
  would otherwise export.
\<close>

theorem codec_precedence:
  assumes "\<exists>c \<in> set (map snd (codecs m)). handles c v"
  shows "\<exists>i < length (codecs m).
           handles (snd (codecs m ! i)) v \<and>
           (\<forall>j < i. \<not> handles (snd (codecs m ! j)) v) \<and>
           serialise_data m v = serialise (snd (codecs m ! i)) v"
proof -
  from find_first_index [OF assms] obtain i where i: "i < length (map snd (codecs m))"
    "find (\<lambda>c. handles c v) (map snd (codecs m)) = Some (map snd (codecs m) ! i)"
    "handles (map snd (codecs m) ! i) v"
    "\<forall>j < i. \<not> handles (map snd (codecs m) ! j) v"
    by blast
  have h: "is_handled_by_codec m v"
    using assms by (simp add: is_handled_iff)
  have "serialise_data m v = serialise (map snd (codecs m) ! i) v"
    using h i(2) by (simp add: serialise_data_handled object_to_codec_dict_def)
  with i show ?thesis
    by (intro exI [of _ i]) auto
qed

text \<open>
  Claim C10. Under the guard \<^verbatim>\<open>_is_handled_by_codec\<close>, the loop of
  \<^verbatim>\<open>_object_to_codec_dict\<close> finds a codec: the fall-through that returns no envelope is
  not taken, and the result is the \<^verbatim>\<open>serialise\<close> output of the first matching codec.
\<close>

theorem codec_guard_excludes_fall_through:
  assumes "is_handled_by_codec m v"
  shows "\<exists>c. find (\<lambda>c. handles c v) (map snd (codecs m)) = Some c \<and> handles c v \<and>
             object_to_codec_dict m v = serialise c v \<and>
             serialise_data m v = object_to_codec_dict m v"
proof -
  from assms have "\<exists>c \<in> set (map snd (codecs m)). handles c v"
    by (simp add: is_handled_iff)
  then obtain c where c: "find (\<lambda>c. handles c v) (map snd (codecs m)) = Some c"
    by (cases "find (\<lambda>c. handles c v) (map snd (codecs m))") (auto simp: find_None_iff)
  then have "handles c v" by (auto simp: find_Some_iff)
  with c assms show ?thesis
    by (simp add: serialise_data_handled object_to_codec_dict_def)
qed


lemma codecs_example_marshall:
  "codecs example_marshall =
     [(''codecs.Datetime'', datetime_codec), (''codecs.Money'', money_codec)]"
  by (simp add: example_marshall_def register_codec_def dict_setitem_def)

theorem codec_precedence_witness:
  "(\<exists>c \<in> set (map snd (codecs example_marshall)).
      handles c (VObj ''app'' ''Money'' [] [(''amount'', VInt 5)] None)) \<and>
   serialise_data example_marshall (VObj ''app'' ''Money'' [] [(''amount'', VInt 5)] None)
     = Inr (VDict [(''__codec__'', VStr ''codecs.Money''), (''params'', VInt 5)])"
proof -
  let ?v = "VObj ''app'' ''Money'' [] [(''amount'', VInt 5)] None"
  have h: "\<exists>c \<in> set (map snd (codecs example_marshall)). handles c ?v"
    by (simp add: codecs_example_marshall money_codec_def)
  from codec_precedence [OF h] obtain i where i: "i < length (codecs example_marshall)"
    "handles (snd (codecs example_marshall ! i)) ?v"
    "serialise_data example_marshall ?v = serialise (snd (codecs example_marshall ! i)) ?v"
    by blast
  from i(1) have "i = 0 \<or> i = 1"
    by (auto simp: codecs_example_marshall)
  with i(2) have "i = 1"
    by (auto simp: codecs_example_marshall datetime_codec_def)
  with i(3) have "serialise_data example_marshall ?v
      = Inr (VDict [(''__codec__'', VStr ''codecs.Money''), (''params'', VInt 5)])"
    by (simp add: codecs_example_marshall money_codec_def)
  with h show ?thesis by blast
qed

theorem codec_guard_excludes_fall_through_witness:
  "is_handled_by_codec example_marshall (VDatetime 7) \<and>
   object_to_codec_dict example_marshall (VDatetime 7)
     = Inr (VDict [(''__codec__'', VStr ''codecs.Datetime''), (''params'', VInt 7)])"
proof -
  have h: "is_handled_by_codec example_marshall (VDatetime 7)"
    by (simp add: is_handled_by_codec_def codecs_example_marshall datetime_codec_def)
  from codec_guard_excludes_fall_through [OF h] obtain c where
    c: "find (\<lambda>c. handles c (VDatetime 7)) (map snd (codecs example_marshall)) = Some c"
      "object_to_codec_dict example_marshall (VDatetime 7) = serialise c (VDatetime 7)"
    by blast
  from c(1) have "c = datetime_codec"
    by (simp add: codecs_example_marshall datetime_codec_def)
  with c(2) h show ?thesis
    by (simp add: datetime_codec_def)
qed

text \<open>
  Claim C8. Deserialising a codec envelope whose codec name is not registered raises the
  \<open>KeyError\<close> of the dictionary lookup \<^verbatim>\<open>self._codecs[fcn]\<close>; the declared
  \<open>NoCodecError\<close> is never raised.
\<close>

theorem unknown_codec_raises_KeyError:
  assumes "map_of d ''__codec__'' = Some (VStr name)"
    and "map_of (codecs m) name = None"
    and "\<not> is_enum_dict (VDict d)"
    and "\<not> is_serialised_class (VDict d)"
  shows "deserialise_data m (VDict d) = Inl (KeyError (VStr name)) \<and>
         deserialise_data m (VDict d) \<noteq> Inl NoCodecError"
  using assms
  by (simp add: deserialise_data.simps requires_codec_def dict_contains_def
      codec_dict_to_object_def dict_getitem_def codecs_getitem_def)

theorem unknown_codec_raises_KeyError_witness:
  "deserialise_data example_marshall
      (VDict [(''__codec__'', VStr ''codecs.Missing''), (''params'', VInt 1)])
     = Inl (KeyError (VStr ''codecs.Missing'')) \<and>
   deserialise_data example_marshall
      (VDict [(''__codec__'', VStr ''codecs.Missing''), (''params'', VInt 1)])
     \<noteq> Inl NoCodecError"
  using unknown_codec_raises_KeyError [of "[(''__codec__'', VStr ''codecs.Missing''), (''params'', VInt 1)]"
      "''codecs.Missing''" example_marshall]
  by (simp add: is_enum_dict_def is_serialised_class_def dict_contains_def
      codecs_example_marshall)

section \<open>Decoding: classification and plain mappings\<close>





lemma keys_dict_setitem: "fst ` set (dict_setitem d k v) = insert k (fst ` set d)"
  unfolding dict_setitem_def by (induction d) auto

lemma export_fields_keys:
  "export_fields m items data = Inr data' \<Longrightarrow> k \<in> fst ` set data' \<Longrightarrow>
     k \<in> fst ` set data \<or> \<not> startswith k ''__''"
proof (induction items arbitrary: data)
  case Nil
  then show ?case by simp
next
  case (Cons kv items)
  obtain a v where kv: "kv = (a, v)" by (cases kv)
  show ?case
  proof (cases "startswith a ''__''")
    case True
    with Cons.prems kv have "export_fields m items data = Inr data'" by simp
    from Cons.IH [OF this Cons.prems(2)] show ?thesis .
  next
    case False
    with Cons.prems kv obtain s where s: "serialise_data m v = Inr s"
      and r: "export_fields m items (dict_setitem data a s) = Inr data'"
      by (auto split: sum.splits)
    from Cons.IH [OF r Cons.prems(2)] False show ?thesis
      by (auto simp: keys_dict_setitem)
  qed
qed

lemma object_to_dict_keys:
  assumes "object_to_dict m obj = Inr (VDict e)" "k \<in> fst ` set e" "startswith k ''__''"
  shows "k \<in> {''__fqn__'', ''__version__'', ''__msgid__'', ''__timestamp__''}"
proof -
  from assms(1) obtain json_data data3 where
    e: "export_fields m json_data data3 = Inr e"
    and d3: "fst ` set data3 \<subseteq> {''__fqn__'', ''__version__'', ''__msgid__'', ''__timestamp__''}"
    by (auto simp: object_to_dict.simps Let_def keys_dict_setitem
        split: sum.splits option.splits)
  from export_fields_keys [OF e assms(2)] assms(3) d3 show ?thesis by auto
qed


text \<open>
  Claim C5 (amended). A decoded mapping node has exactly one kind, fixed by the presence
  of keys in the order enum (\<open>_value_\<close> and \<open>_name_\<close>), object (\<open>__fqn__\<close>), codec
  (\<open>__codec__\<close>), plain mapping, and \<^verbatim>\<open>deserialise_data\<close> dispatches on that kind. The
  keys \<open>__fqn__\<close>, \<open>__version__\<close>, \<open>__msgid__\<close>, \<open>__timestamp__\<close> and \<open>__codec__\<close> start
  with two underscores, and no exported field of an object envelope does.
\<close>

theorem decode_classification:
  "deserialise_data m (VDict d) =
     (case classify (VDict d) of
        EnumEnvelope \<Rightarrow> dict_to_enum m (VDict d)
      | ObjectEnvelope \<Rightarrow> dict_to_object m (VDict d)
      | CodecEnvelope \<Rightarrow> codec_dict_to_object m (VDict d)
      | PlainMapping \<Rightarrow>
          (case deserialise_items m d [] of Inl e \<Rightarrow> Inl e | Inr kvs \<Rightarrow> Inr (VImmMap kvs))) \<and>
   (classify (VDict d) = EnumEnvelope \<longleftrightarrow>
      dict_contains d ''_value_'' \<and> dict_contains d ''_name_'') \<and>
   (classify (VDict d) = ObjectEnvelope \<longleftrightarrow>
      \<not> (dict_contains d ''_value_'' \<and> dict_contains d ''_name_'') \<and>
      dict_contains d ''__fqn__'') \<and>
   (classify (VDict d) = CodecEnvelope \<longleftrightarrow>
      \<not> (dict_contains d ''_value_'' \<and> dict_contains d ''_name_'') \<and>
      \<not> dict_contains d ''__fqn__'' \<and> dict_contains d ''__codec__'') \<and>
   (classify (VDict d) = PlainMapping \<longleftrightarrow>
      \<not> (dict_contains d ''_value_'' \<and> dict_contains d ''_name_'') \<and>
      \<not> dict_contains d ''__fqn__'' \<and> \<not> dict_contains d ''__codec__'') \<and>
   (\<forall>k \<in> set marked_keys. startswith k ''__'') \<and>
   (object_to_dict m obj = Inr (VDict e) \<longrightarrow>
      (\<forall>k \<in> fst ` set e. startswith k ''__'' \<longrightarrow> k \<in> set marked_keys))"
proof (intro conjI)
  show "deserialise_data m (VDict d) =
     (case classify (VDict d) of
        EnumEnvelope \<Rightarrow> dict_to_enum m (VDict d)
      | ObjectEnvelope \<Rightarrow> dict_to_object m (VDict d)
      | CodecEnvelope \<Rightarrow> codec_dict_to_object m (VDict d)
      | PlainMapping \<Rightarrow>
          (case deserialise_items m d [] of Inl e \<Rightarrow> Inl e | Inr kvs \<Rightarrow> Inr (VImmMap kvs)))"
    by (simp add: deserialise_data.simps classify_def)
  show "\<forall>k \<in> set marked_keys. startswith k ''__''"
    by (simp add: marked_keys_def startswith_def)
  show "object_to_dict m obj = Inr (VDict e) \<longrightarrow>
      (\<forall>k \<in> fst ` set e. startswith k ''__'' \<longrightarrow> k \<in> set marked_keys)"
    using object_to_dict_keys [of m obj e] by (auto simp: marked_keys_def)
qed (auto simp: classify_def is_enum_dict_def is_serialised_class_def requires_codec_def)

theorem decode_classification_witness:
  "classify (VDict [(''__codec__'', VStr ''c''), (''__fqn__'', VStr ''a.b.T''),
       (''_name_'', VStr ''RED''), (''_value_'', VInt 1)]) = EnumEnvelope \<and>
   classify (VDict [(''__codec__'', VStr ''c''), (''__fqn__'', VStr ''a.b.T'')]) = ObjectEnvelope \<and>
   classify (VDict [(''__codec__'', VStr ''c''), (''params'', VInt 1)]) = CodecEnvelope \<and>
   classify (VDict [(''params'', VInt 1)]) = PlainMapping \<and>
   startswith ''__codec__'' ''__'' \<and>
   object_to_dict example_marshall (VObj ''app'' ''T'' [] [(''x'', VInt 1), (''__y'', VInt 2)] None)
     = Inr (VDict [(''__fqn__'', VStr ''a.b.T''), (''x'', VInt 1)])"
proof -
  let ?obj = "VObj ''app'' ''T'' [] [(''x'', VInt 1), (''__y'', VInt 2)] None"
  let ?e = "[(''__fqn__'', VStr ''a.b.T''), (''x'', VInt 1)]"
  have ser: "serialise_data example_marshall (VInt 1) = Inr (VInt 1)"
    by (simp add: serialise_data.simps is_handled_by_codec_def codecs_example_marshall
        datetime_codec_def money_codec_def is_simple_type_def)
  have fqn: "instance_to_fqn (resolver example_marshall) ?obj = Inr ''a.b.T''"
    by (simp add: example_marshall_def register_codec_def instance_to_fqn_def get_fqn_def
        lookup_fqn_def FqnResolver_init_def dict_getitem_def dict_setitem_def)
  have obj: "object_to_dict example_marshall ?obj = Inr (VDict ?e)"
    by (simp add: object_to_dict.simps fqn ser startswith_def dict_setitem_def)
  show ?thesis
    using obj
      decode_classification [where m = example_marshall and obj = ?obj and e = ?e
        and d = "[(''__codec__'', VStr ''c''), (''__fqn__'', VStr ''a.b.T''),
           (''_name_'', VStr ''RED''), (''_value_'', VInt 1)]"]
      decode_classification [where m = example_marshall and obj = ?obj and e = ?e
        and d = "[(''__codec__'', VStr ''c''), (''__fqn__'', VStr ''a.b.T'')]"]
      decode_classification [where m = example_marshall and obj = ?obj and e = ?e
        and d = "[(''__codec__'', VStr ''c''), (''params'', VInt 1)]"]
      decode_classification [where m = example_marshall and obj = ?obj and e = ?e
        and d = "[(''params'', VInt 1)]"]
    by (simp add: dict_contains_def marked_keys_def)
qed

text \<open>
  Claim C5 as stated fails: \<open>params\<close>, \<open>_name_\<close> and \<open>_value_\<close> are reserved keys without
  the two-underscore marker (\<open>params\<close> has no underscore at all), and an ordinary object
  with fields \<open>_name_\<close> and \<open>_value_\<close> is exported with them and decoded as an enum envelope.
\<close>

theorem reserved_keys_not_all_marked:
  "\<not> (\<forall>k \<in> set reserved_keys. startswith k ''__'') \<and>
   ''params'' \<in> set reserved_keys \<and> \<not> startswith ''params'' ''_'' \<and>
   serialise_data example_marshall
      (VObj ''app'' ''Tag'' [] [(''_name_'', VStr ''t''), (''_value_'', VInt 1)] None)
     = Inr (VDict [(''__fqn__'', VStr ''a.b.Tag''), (''_name_'', VStr ''t''), (''_value_'', VInt 1)]) \<and>
   classify (VDict [(''__fqn__'', VStr ''a.b.Tag''), (''_name_'', VStr ''t''), (''_value_'', VInt 1)])
     = EnumEnvelope"
proof -
  let ?obj = "VObj ''app'' ''Tag'' [] [(''_name_'', VStr ''t''), (''_value_'', VInt 1)] None"
  have nh: "\<And>v. type_module v = ''builtins'' \<Longrightarrow> \<not> is_handled_by_codec example_marshall v"
    by (auto simp: is_handled_by_codec_def codecs_example_marshall datetime_codec_def
        money_codec_def elim: is_datetime.elims)
  have ser: "serialise_data example_marshall (VInt 1) = Inr (VInt 1)"
    "serialise_data example_marshall (VStr ''t'') = Inr (VStr ''t'')"
    by (simp_all add: serialise_data.simps nh is_simple_type_def)
  have fqn: "instance_to_fqn (resolver example_marshall) ?obj = Inr ''a.b.Tag''"
    by (simp add: example_marshall_def register_codec_def instance_to_fqn_def get_fqn_def
        lookup_fqn_def FqnResolver_init_def dict_getitem_def dict_setitem_def)
  have obj: "object_to_dict example_marshall ?obj
      = Inr (VDict [(''__fqn__'', VStr ''a.b.Tag''), (''_name_'', VStr ''t''), (''_value_'', VInt 1)])"
    by (simp add: object_to_dict.simps fqn ser startswith_def dict_setitem_def)
  have "\<not> is_handled_by_codec example_marshall ?obj"
    by (simp add: is_handled_by_codec_def codecs_example_marshall datetime_codec_def
        money_codec_def)
  then have "serialise_data example_marshall ?obj = object_to_dict example_marshall ?obj"
    by (simp add: serialise_data.simps is_simple_type_def)
  with obj show ?thesis
    by (simp add: reserved_keys_def startswith_def classify_def is_enum_dict_def dict_contains_def)
qed




lemma deserialise_int: "deserialise_data m (VInt i) = Inr (VInt i)"
  by (simp add: deserialise_data.simps is_enum_dict_def is_serialised_class_def
      requires_codec_def)



section \<open>Decoding: unresolved type identifiers\<close>

lemma get_fqn_unresolved:
  assumes ne: "key \<noteq> []"
    and exact: "\<forall>p. lookup_fqn r key public \<noteq> Inr p"
    and wild: "\<forall>pre ent p. key = pre @ CHR ''.'' # ent \<and> CHR ''.'' \<notin> set ent \<longrightarrow>
        lookup_fqn r (pre @ ''.*'') public \<noteq> Inr p"
  shows "\<exists>k. get_fqn r key public = Inl (KeyError (VStr k))"
proof -
  from exact lookup_fqn_cases [of r key public]
  have miss: "lookup_fqn r key public = Inl (KeyError (VStr key))" by auto
  show ?thesis
  proof (cases "last key = CHR ''*'' \<or> CHR ''.'' \<notin> set key")
    case True
    then have "key = [] \<or> last key = CHR ''*'' \<or> CHR ''.'' \<notin> set key" by blast
    from get_fqn_no_wildcard [OF miss this] ne show ?thesis by simp
  next
    case False
    then obtain pre ent where k: "key = pre @ CHR ''.'' # ent" "CHR ''.'' \<notin> set ent"
      using path_decompose [of "CHR ''.''" key] by auto
    from False k have e: "ent = [] \<or> last ent \<noteq> CHR ''*''" by auto
    from wild k lookup_fqn_cases [of r "pre @ ''.*''" public]
    have "lookup_fqn r (pre @ ''.*'') public = Inl (KeyError (VStr (pre @ ''.*'')))" by auto
    with get_fqn_wildcard [OF miss [unfolded k(1)] k(2) e] k(1) show ?thesis by simp
  qed
qed

lemma fqn_to_type_unresolved:
  "get_fqn r key True = Inl e \<Longrightarrow> fqn_to_type r mods (VStr key) = Inl e"
  by (simp add: fqn_to_type_def)

lemma import_fields_ok:
  assumes "\<forall>(k, v) \<in> set d. \<not> startswith k ''__'' \<longrightarrow> (\<exists>s. deserialise_data m v = Inr s)"
  shows "\<exists>kwargs. import_fields m d kw = Inr kwargs"
  using assms
proof (induction d arbitrary: kw)
  case Nil
  show ?case by simp
next
  case (Cons kv d)
  obtain k v where kv: "kv = (k, v)" by (cases kv)
  from Cons.prems have rest:
    "\<forall>(k, v) \<in> set d. \<not> startswith k ''__'' \<longrightarrow> (\<exists>s. deserialise_data m v = Inr s)"
    by simp
  show ?case
  proof (cases "startswith k ''__''")
    case True
    with Cons.IH [OF rest] kv show ?thesis by simp
  next
    case False
    with Cons.prems kv obtain s where "deserialise_data m v = Inr s" by auto
    with False Cons.IH [OF rest] kv show ?thesis by simp
  qed
qed

text \<open>
  Claim C9 (amended). For an enum or object envelope whose type identifier is a non-empty
  text with neither an exact nor a wildcard entry in the public table, decoding fails with
  the \<open>KeyError\<close> of the resolver's lookup, which nothing catches. For an object envelope
  this is so when its timestamp and its fields deserialise: they are decoded before the
  type is resolved, and their errors come first.
\<close>

theorem unresolved_type_identifier_raises_KeyError:
  assumes fqn: "map_of d ''__fqn__'' = Some (VStr key)" and ne: "key \<noteq> []"
    and exact: "\<forall>p. lookup_fqn (resolver m) key True \<noteq> Inr p"
    and wild: "\<forall>pre ent p. key = pre @ CHR ''.'' # ent \<and> CHR ''.'' \<notin> set ent \<longrightarrow>
        lookup_fqn (resolver m) (pre @ ''.*'') True \<noteq> Inr p"
    and kind: "is_enum_dict (VDict d) \<or>
        ((\<not> py_truthy (py_get (VDict d) ''__timestamp__'') \<or>
          (\<exists>t. deserialise_data m (py_get (VDict d) ''__timestamp__'') = Inr t)) \<and>
         (\<forall>(k, v) \<in> set d. \<not> startswith k ''__'' \<longrightarrow> (\<exists>s. deserialise_data m v = Inr s)))"
  shows "\<exists>k. get_fqn (resolver m) key True = Inl (KeyError (VStr k)) \<and>
             deserialise_data m (VDict d) = Inl (KeyError (VStr k))"
proof -
  from get_fqn_unresolved [OF ne exact wild] obtain k where
    k: "get_fqn (resolver m) key True = Inl (KeyError (VStr k))" by blast
  then have ty: "fqn_to_type (resolver m) (py_modules m) (VStr key) = Inl (KeyError (VStr k))"
    by (rule fqn_to_type_unresolved)
  have sub: "dict_getitem d ''__fqn__'' = Inr (VStr key)"
    using fqn by (simp add: dict_getitem_def)
  have cls: "is_serialised_class (VDict d)"
    using fqn by (simp add: is_serialised_class_def dict_contains_def)
  have "deserialise_data m (VDict d) = Inl (KeyError (VStr k))"
  proof (cases "is_enum_dict (VDict d)")
    case True
    then show ?thesis
      by (simp add: deserialise_data.simps dict_to_enum_def sub ty)
  next
    case False
    with kind have ts: "\<not> py_truthy (py_get (VDict d) ''__timestamp__'') \<or>
          (\<exists>t. deserialise_data m (py_get (VDict d) ''__timestamp__'') = Inr t)"
      and fields: "\<forall>(k, v) \<in> set d. \<not> startswith k ''__'' \<longrightarrow> (\<exists>s. deserialise_data m v = Inr s)"
      by blast+
    have "dict_to_object m (VDict d) = Inl (KeyError (VStr k))"
    proof (cases "py_truthy (py_get (VDict d) ''__timestamp__'')")
      case True
      with ts obtain t where t: "deserialise_data m (py_get (VDict d) ''__timestamp__'') = Inr t"
        by blast
      let ?kw = "dict_setitem (if py_truthy (py_get (VDict d) ''__msgid__'')
                     then dict_setitem [] ''__msgid__'' (py_get (VDict d) ''__msgid__'')
                     else []) ''__timestamp__'' t"
      from import_fields_ok [OF fields, of ?kw] obtain kwargs where
        "import_fields m d ?kw = Inr kwargs" by blast
      with True t show ?thesis
        by (simp add: dict_to_object.simps Let_def sub ty)
    next
      case nt: False
      let ?kw = "(if py_truthy (py_get (VDict d) ''__msgid__'')
                     then dict_setitem [] ''__msgid__'' (py_get (VDict d) ''__msgid__'')
                     else [])"
      from import_fields_ok [OF fields, of ?kw] obtain kwargs where
        "import_fields m d ?kw = Inr kwargs" by blast
      with nt show ?thesis
        by (simp add: dict_to_object.simps Let_def sub ty)
    qed
    with False cls show ?thesis
      by (simp add: deserialise_data.simps)
  qed
  with k show ?thesis by blast
qed


lemma resolver_example_marshall:
  "resolver example_marshall =
     \<lparr>public_to_private = [(''a.b.*'', ''app.*'')], private_to_public = [(''app.*'', ''a.b.*'')]\<rparr>"
  by (simp add: example_marshall_def register_codec_def FqnResolver_init_def dict_setitem_def)

lemma py_modules_example_marshall: "py_modules example_marshall = []"
  by (simp add: example_marshall_def register_codec_def)

theorem unresolved_type_identifier_raises_KeyError_witness:
  "deserialise_data example_marshall (VDict [(''__fqn__'', VStr ''c.d.Foo''), (''x'', VInt 1)])
     = Inl (KeyError (VStr ''c.d.*''))"
proof -
  let ?d = "[(''__fqn__'', VStr ''c.d.Foo''), (''x'', VInt 1)]"
  have fqn: "map_of ?d ''__fqn__'' = Some (VStr ''c.d.Foo'')" by simp
  have ne: "''c.d.Foo'' \<noteq> []" by simp
  have exact: "\<forall>p. lookup_fqn (resolver example_marshall) ''c.d.Foo'' True \<noteq> Inr p"
    by (simp add: resolver_example_marshall lookup_fqn_def dict_getitem_def)
  have pre: "\<And>pre ent. ''c.d.Foo'' = pre @ CHR ''.'' # ent \<Longrightarrow> CHR ''.'' \<notin> set ent
      \<Longrightarrow> pre = ''c.d''"
    by (drule (1) prefix_of_last_segment) simp
  have wild: "\<forall>pre ent p. ''c.d.Foo'' = pre @ CHR ''.'' # ent \<and> CHR ''.'' \<notin> set ent \<longrightarrow>
        lookup_fqn (resolver example_marshall) (pre @ ''.*'') True \<noteq> Inr p"
    using pre by (auto simp: resolver_example_marshall lookup_fqn_def dict_getitem_def)
  have kind: "is_enum_dict (VDict ?d) \<or>
        ((\<not> py_truthy (py_get (VDict ?d) ''__timestamp__'') \<or>
          (\<exists>t. deserialise_data example_marshall (py_get (VDict ?d) ''__timestamp__'') = Inr t)) \<and>
         (\<forall>(k, v) \<in> set ?d. \<not> startswith k ''__'' \<longrightarrow>
            (\<exists>s. deserialise_data example_marshall v = Inr s)))"
    by (simp add: startswith_def deserialise_int)
  from unresolved_type_identifier_raises_KeyError [OF fqn ne exact wild kind]
  obtain k where k: "get_fqn (resolver example_marshall) ''c.d.Foo'' True = Inl (KeyError (VStr k))"
    "deserialise_data example_marshall (VDict ?d) = Inl (KeyError (VStr k))" by blast
  have "get_fqn (resolver example_marshall) ''c.d.Foo'' True = Inl (KeyError (VStr ''c.d.*''))"
    by (simp add: resolver_example_marshall get_fqn_def lookup_fqn_def dict_getitem_def)
  with k show ?thesis by simp
qed

text \<open>
  Claim C9 as stated fails: with an unmapped type identifier, a field that fails to
  decode decides the error (here \<open>ModuleNotFoundError\<close> from a nested envelope), and the
  empty identifier raises \<open>IndexError\<close> in the handler of the lookup error.
\<close>

theorem unresolved_type_identifier_other_errors:
  "get_fqn (resolver example_marshall) ''unknown'' True = Inl (KeyError (VStr ''unknown'')) \<and>
   deserialise_data example_marshall
     (VDict [(''__fqn__'', VStr ''unknown''), (''child'', VDict [(''__fqn__'', VStr ''a.b.Known'')])])
     = Inl (ModuleNotFoundError ''app'') \<and>
   deserialise_data example_marshall (VDict [(''__fqn__'', VStr [])]) = Inl IndexError"
proof -
  have 1: "get_fqn (resolver example_marshall) ''unknown'' True = Inl (KeyError (VStr ''unknown''))"
    by (simp add: resolver_example_marshall get_fqn_def lookup_fqn_def dict_getitem_def)
  have known: "get_fqn (resolver example_marshall) ''a.b.Known'' True = Inr ''app.Known''"
    by (simp add: resolver_example_marshall get_fqn_def lookup_fqn_def dict_getitem_def)
  have child: "deserialise_data example_marshall (VDict [(''__fqn__'', VStr ''a.b.Known'')])
      = Inl (ModuleNotFoundError ''app'')"
    by (simp add: deserialise_data.simps dict_to_object.simps is_enum_dict_def
        is_serialised_class_def dict_contains_def dict_getitem_def startswith_def fqn_to_type_def
        known import_module_def py_modules_example_marshall)
  have 2: "deserialise_data example_marshall
     (VDict [(''__fqn__'', VStr ''unknown''), (''child'', VDict [(''__fqn__'', VStr ''a.b.Known'')])])
     = Inl (ModuleNotFoundError ''app'')"
    by (simp add: deserialise_data.simps [of _ "VDict [(''__fqn__'', VStr ''unknown''), _]"]
        dict_to_object.simps is_enum_dict_def
        is_serialised_class_def dict_contains_def startswith_def child)
  have empty: "get_fqn (resolver example_marshall) [] True = Inl IndexError"
    by (simp add: resolver_example_marshall get_fqn_def lookup_fqn_def dict_getitem_def)
  have 3: "deserialise_data example_marshall (VDict [(''__fqn__'', VStr [])]) = Inl IndexError"
    by (simp add: deserialise_data.simps dict_to_object.simps is_enum_dict_def
        is_serialised_class_def dict_contains_def dict_getitem_def startswith_def fqn_to_type_def
        empty)
  from 1 2 3 show ?thesis by blast
qed

section \<open>Self-referential structures\<close>








section \<open>Canonical encoding\<close>










end
